theory Spec2Isabelle
  imports Main "HOL-Library.Word"
begin

unbundle bit_operations_syntax

section \<open>The radio exerciser of projects/at86rf215/01bsp\_radio\<close>

text \<open>
  The program is one C file: the globals \<open>app_vars\<close> and \<open>app_dbg\<close>, the function
  \<open>mote_main\<close> (start-up followed by the dispatch loop) and five notification
  callbacks. The board, radio, LED and timer drivers are declared in headers that are not
  part of the file; a call to one of them is recorded, in order, in a log of driver calls.
\<close>

subsection \<open>Constants\<close>

type_synonym uint8_t = "8 word"
type_synonym uint16_t = "16 word"

text \<open>
  \<open>LENGTH_CRC\<close> comes from \<open>radio.h\<close>, which is not part of the file, so the length of
  the CRC is a parameter of the model. \<open>LENGTH_PACKET\<close> is the macro \<open>2043+LENGTH_CRC\<close>,
  the number of elements of \<open>app_vars.packet\<close>.
\<close>

definition LENGTH_PACKET :: "nat \<Rightarrow> nat" where
  "LENGTH_PACKET LENGTH_CRC = 2043 + LENGTH_CRC"

definition CHANNEL :: nat where
  "CHANNEL = 0"

definition CHANNEL_SPACING :: nat where
  "CHANNEL_SPACING = 800"

definition FREQUENCY_0 :: nat where
  "FREQUENCY_0 = 9028000"

definition TIMER_PERIOD :: nat where
  "TIMER_PERIOD = 0xffff"

definition ID :: uint8_t where
  "ID = 0x99"

definition APP_FLAG_START_FRAME :: uint8_t where
  "APP_FLAG_START_FRAME = 0x01"

definition APP_FLAG_END_FRAME :: uint8_t where
  "APP_FLAG_END_FRAME = 0x02"

definition APP_FLAG_TIMER :: uint8_t where
  "APP_FLAG_TIMER = 0x04"

text \<open>
  \<open>app_state_t\<close> is a C enumeration with the two values 1 and 2. The \<open>memset\<close> of
  start-up stores 0 in the field, which is neither, and the two \<open>switch\<close> statements
  have no \<open>default\<close> branch; the field is therefore kept as the integer the C code
  stores (the width of the enumeration plays no role).
\<close>

type_synonym app_state_t = "8 word"

definition APP_STATE_TX :: app_state_t where
  "APP_STATE_TX = 0x01"

definition APP_STATE_RX :: app_state_t where
  "APP_STATE_RX = 0x02"

subsection \<open>The globals\<close>

record app_dbg_t =
  num_radioTimerOverflows :: uint8_t
  num_radioTimerCompare :: uint8_t
  num_startFrame :: uint8_t
  num_endFrame :: uint8_t
  num_timer :: uint8_t

record app_vars_t =
  flags :: uint8_t
  state :: app_state_t
  packet :: "uint8_t list"
  packet_len :: uint16_t
  rxpk_rssi :: uint8_t
  rxpk_lqi :: uint8_t
  rxpk_crc :: bool

subsection \<open>The drivers\<close>

datatype callback =
    Cb_radioTimerOverflows
  | Cb_radioTimerCompare
  | Cb_startFrame
  | Cb_endFrame
  | Cb_timer

text \<open>
  One constructor for each driver function the file calls, with the arguments of the call.
  \<open>radio_getReceivedFrame\<close> is passed the buffer only; its entry carries the value
  that \<open>app_vars.packet_len\<close> has at the moment of the call, so that the log shows what
  was stored before the call was made.
\<close>

datatype bsp_call =
    Board_init
  | Radio_setOverflowCb callback
  | Radio_setCompareCb callback
  | Radio_setStartFrameCb callback
  | Radio_setEndFrameCb callback
  | Bsp_timer_set_callback callback
  | Bsp_timer_scheduleIn nat
  | Radio_rfOn
  | Radio_rfOff
  | Radio_setFrequency nat nat nat
  | Radio_rxEnable
  | Radio_txEnable
  | Radio_txNow
  | Radio_loadPacket "uint8_t list" uint16_t
  | Radio_getReceivedFrame uint16_t
  | Leds_error_on
  | Leds_error_off
  | Leds_sync_on
  | Leds_sync_off

text \<open>
  The whole machine: the two globals, the log of driver calls, and the frame the radio
  holds for the next \<open>radio_getReceivedFrame\<close>.
\<close>

record mote =
  app_vars :: app_vars_t
  app_dbg :: app_dbg_t
  calls :: "bsp_call list"
  radio_frame :: "uint8_t list"

definition bsp :: "bsp_call \<Rightarrow> mote \<Rightarrow> mote" where
  "bsp c m = m\<lparr>calls := calls m @ [c]\<rparr>"

text \<open>\<open>sizeof(app_vars.packet)\<close>, stored in a \<open>uint16_t\<close>.\<close>

definition sizeof_packet :: "app_vars_t \<Rightarrow> uint16_t" where
  "sizeof_packet v = of_nat (length (packet v))"

text \<open>\<open>app_vars.packet_len = sizeof(app_vars.packet)\<close>\<close>

definition set_packet_len :: "mote \<Rightarrow> mote" where
  "set_packet_len m = m\<lparr>app_vars := (app_vars m)\<lparr>packet_len := sizeof_packet (app_vars m)\<rparr>\<rparr>"

text \<open>
  Modelled from the spec: \<open>radio_getReceivedFrame\<close> belongs to the radio driver, which is
  not part of the file. The spec's \<open>fetchReceivedFrame(intoBuffer) -> actualLength\<close>
  fetches the completed inbound frame into the frame buffer, and the fetched length is at
  most the capacity: the first \<open>fetched_length\<close> bytes of the buffer are overwritten with
  the frame, the rest of the buffer stays.
\<close>

definition fetched_length :: "uint8_t list \<Rightarrow> uint8_t list \<Rightarrow> nat" where
  "fetched_length frame buf = min (length frame) (length buf)"

definition radio_getReceivedFrame :: "mote \<Rightarrow> mote" where
  "radio_getReceivedFrame m =
     (let v = app_vars m;
          n = fetched_length (radio_frame m) (packet v)
      in bsp (Radio_getReceivedFrame (packet_len v))
           (m\<lparr>app_vars := v\<lparr>packet := take n (radio_frame m) @ drop n (packet v)\<rparr>\<rparr>))"

subsection \<open>Preparing the packet\<close>

text \<open>
  The loop \<open>for (i=0;i<app_vars.packet_len;i++) app_vars.packet[i] = ID;\<close> with the
  counter \<open>uint8_t i\<close>. Both sides of the comparison are promoted to \<open>int\<close>; the
  increment wraps from 255 to 0. The loop need not end, so its result is an option. The
  loop is only run after \<open>packet_len\<close> has been set to the size of the packet, so every
  index it writes lies inside the packet.
\<close>

partial_function (option) fill_packet :: "uint8_t \<Rightarrow> app_vars_t \<Rightarrow> app_vars_t option" where
  "fill_packet i v =
     (if uint i < uint (packet_len v)
      then fill_packet (i + 1) (v\<lparr>packet := (packet v)[unat i := ID]\<rparr>)
      else Some v)"

text \<open>The two statements under \<open>// prepare packet\<close>: store the length, then fill.\<close>

definition prepare_packet :: "mote \<Rightarrow> mote option" where
  "prepare_packet m =
     map_option (\<lambda>v. m\<lparr>app_vars := v\<rparr>) (fill_packet 0 (app_vars (set_packet_len m)))"

subsection \<open>The three checks of the dispatch loop\<close>

text \<open>\<open>app_vars.flags &= ~k\<close> and \<open>app_vars.flags |= k\<close>.\<close>

definition clear_flag :: "uint8_t \<Rightarrow> mote \<Rightarrow> mote" where
  "clear_flag k m = m\<lparr>app_vars := (app_vars m)\<lparr>flags := flags (app_vars m) AND NOT k\<rparr>\<rparr>"

definition raise_flag :: "uint8_t \<Rightarrow> mote \<Rightarrow> mote" where
  "raise_flag k m = m\<lparr>app_vars := (app_vars m)\<lparr>flags := flags (app_vars m) OR k\<rparr>\<rparr>"

definition set_state :: "app_state_t \<Rightarrow> mote \<Rightarrow> mote" where
  "set_state st m = m\<lparr>app_vars := (app_vars m)\<lparr>state := st\<rparr>\<rparr>"

text \<open>\<open>if (app_vars.flags & APP_FLAG_START_FRAME) { switch ... }\<close>\<close>

definition handle_start_frame :: "mote \<Rightarrow> mote" where
  "handle_start_frame m =
     (if flags (app_vars m) AND APP_FLAG_START_FRAME \<noteq> 0
      then clear_flag APP_FLAG_START_FRAME
             (if state (app_vars m) = APP_STATE_RX then bsp Leds_error_on m
              else if state (app_vars m) = APP_STATE_TX then bsp Leds_sync_on m
              else m)
      else m)"

text \<open>\<open>if (app_vars.flags & APP_FLAG_END_FRAME) { switch ... }\<close>\<close>

definition handle_end_frame :: "mote \<Rightarrow> mote" where
  "handle_end_frame m =
     (if flags (app_vars m) AND APP_FLAG_END_FRAME \<noteq> 0
      then clear_flag APP_FLAG_END_FRAME
             (if state (app_vars m) = APP_STATE_RX
              then bsp Leds_error_off (radio_getReceivedFrame (set_packet_len m))
              else if state (app_vars m) = APP_STATE_TX
              then bsp Leds_sync_off (set_state APP_STATE_RX (bsp Radio_rxEnable m))
              else m)
      else m)"

text \<open>
  The branch of the timer check taken in state \<open>APP_STATE_RX\<close>: stop listening, prepare
  the packet, load it and transmit.
\<close>

definition start_transmit :: "mote \<Rightarrow> mote option" where
  "start_transmit m =
     (case prepare_packet (bsp Radio_rfOff m) of
        None \<Rightarrow> None
      | Some m1 \<Rightarrow>
          Some (set_state APP_STATE_TX
                 (fold bsp
                    [Radio_loadPacket (packet (app_vars m1)) (packet_len (app_vars m1)),
                     Radio_txEnable,
                     Radio_txNow] m1)))"

text \<open>\<open>if (app_vars.flags & APP_FLAG_TIMER) { if (app_vars.state==APP_STATE_RX) ... }\<close>\<close>

definition handle_timer :: "mote \<Rightarrow> mote option" where
  "handle_timer m =
     (if flags (app_vars m) AND APP_FLAG_TIMER \<noteq> 0
      then map_option (clear_flag APP_FLAG_TIMER)
             (if state (app_vars m) = APP_STATE_RX then start_transmit m else Some m)
      else Some m)"

text \<open>One pass through the body of \<open>while (app_vars.flags)\<close>.\<close>

definition mote_pass :: "mote \<Rightarrow> mote option" where
  "mote_pass m = handle_timer (handle_end_frame (handle_start_frame m))"

text \<open>The loop \<open>while (app_vars.flags) { ... }\<close>, with no notification arriving meanwhile.\<close>

partial_function (option) drain :: "mote \<Rightarrow> mote option" where
  "drain m =
     (if flags (app_vars m) \<noteq> 0
      then (case mote_pass m of None \<Rightarrow> None | Some m1 \<Rightarrow> drain m1)
      else Some m)"

subsection \<open>Start-up\<close>

text \<open>\<open>memset(&app_vars,0,sizeof(app_vars_t))\<close>: every field is zero, the array keeps its size.\<close>

definition memset_app_vars :: "mote \<Rightarrow> mote" where
  "memset_app_vars m =
     m\<lparr>app_vars :=
         \<lparr>flags = 0, state = 0,
          packet = replicate (length (packet (app_vars m))) 0,
          packet_len = 0, rxpk_rssi = 0, rxpk_lqi = 0, rxpk_crc = False\<rparr>\<rparr>"

text \<open>The statements of \<open>mote_main\<close> before \<open>while (1)\<close>.\<close>

definition mote_main_init :: "mote \<Rightarrow> mote option" where
  "mote_main_init m =
     (case prepare_packet
             (fold bsp
                [Board_init,
                 Radio_setOverflowCb Cb_radioTimerOverflows,
                 Radio_setCompareCb Cb_radioTimerCompare,
                 Radio_setStartFrameCb Cb_startFrame,
                 Radio_setEndFrameCb Cb_endFrame] (memset_app_vars m)) of
        None \<Rightarrow> None
      | Some m1 \<Rightarrow>
          Some (raise_flag APP_FLAG_TIMER
                 (set_state APP_STATE_RX
                   (fold bsp
                      [Bsp_timer_set_callback Cb_timer,
                       Bsp_timer_scheduleIn TIMER_PERIOD,
                       Radio_rfOn,
                       Radio_setFrequency CHANNEL_SPACING FREQUENCY_0 CHANNEL,
                       Radio_rxEnable] m1))))"

subsection \<open>The callbacks\<close>

definition cb_radioTimerOverflows :: "mote \<Rightarrow> mote" where
  "cb_radioTimerOverflows m =
     m\<lparr>app_dbg := (app_dbg m)\<lparr>num_radioTimerOverflows :=
                                 num_radioTimerOverflows (app_dbg m) + 1\<rparr>\<rparr>"

definition cb_radioTimerCompare :: "mote \<Rightarrow> mote" where
  "cb_radioTimerCompare m =
     m\<lparr>app_dbg := (app_dbg m)\<lparr>num_radioTimerCompare :=
                                 num_radioTimerCompare (app_dbg m) + 1\<rparr>\<rparr>"

definition cb_startFrame :: "uint16_t \<Rightarrow> mote \<Rightarrow> mote" where
  "cb_startFrame timestamp m =
     (raise_flag APP_FLAG_START_FRAME m)
       \<lparr>app_dbg := (app_dbg m)\<lparr>num_startFrame := num_startFrame (app_dbg m) + 1\<rparr>\<rparr>"

definition cb_endFrame :: "uint16_t \<Rightarrow> mote \<Rightarrow> mote" where
  "cb_endFrame timestamp m =
     (raise_flag APP_FLAG_END_FRAME m)
       \<lparr>app_dbg := (app_dbg m)\<lparr>num_endFrame := num_endFrame (app_dbg m) + 1\<rparr>\<rparr>"

definition cb_timer :: "mote \<Rightarrow> mote" where
  "cb_timer m =
     bsp (Bsp_timer_scheduleIn TIMER_PERIOD)
       ((raise_flag APP_FLAG_TIMER m)
          \<lparr>app_dbg := (app_dbg m)\<lparr>num_timer := num_timer (app_dbg m) + 1\<rparr>\<rparr>)"

text \<open>
  A notification is one invocation of a callback by the drivers, with the argument the
  callback is given; \<open>counter\<close> is the field of \<open>app_dbg\<close> that belongs to a callback.
\<close>

datatype notification =
    Radio_timer_overflows
  | Radio_timer_compare
  | Start_frame uint16_t
  | End_frame uint16_t
  | Timer_fired

fun callback_of :: "notification \<Rightarrow> callback" where
  "callback_of Radio_timer_overflows = Cb_radioTimerOverflows"
| "callback_of Radio_timer_compare = Cb_radioTimerCompare"
| "callback_of (Start_frame t) = Cb_startFrame"
| "callback_of (End_frame t) = Cb_endFrame"
| "callback_of Timer_fired = Cb_timer"

fun notify :: "notification \<Rightarrow> mote \<Rightarrow> mote" where
  "notify Radio_timer_overflows m = cb_radioTimerOverflows m"
| "notify Radio_timer_compare m = cb_radioTimerCompare m"
| "notify (Start_frame t) m = cb_startFrame t m"
| "notify (End_frame t) m = cb_endFrame t m"
| "notify Timer_fired m = cb_timer m"

fun counter :: "callback \<Rightarrow> app_dbg_t \<Rightarrow> uint8_t" where
  "counter Cb_radioTimerOverflows d = num_radioTimerOverflows d"
| "counter Cb_radioTimerCompare d = num_radioTimerCompare d"
| "counter Cb_startFrame d = num_startFrame d"
| "counter Cb_endFrame d = num_endFrame d"
| "counter Cb_timer d = num_timer d"

text \<open>The flag that the callback of a notification sets (two callbacks set none).\<close>

fun raised :: "notification \<Rightarrow> uint8_t" where
  "raised Radio_timer_overflows = 0"
| "raised Radio_timer_compare = 0"
| "raised (Start_frame t) = APP_FLAG_START_FRAME"
| "raised (End_frame t) = APP_FLAG_END_FRAME"
| "raised Timer_fired = APP_FLAG_TIMER"

text \<open>
  \<open>app_vars.flags &= ~k\<close> reads \<open>flags\<close> and then writes it; \<open>flags\<close> is a plain
  \<open>uint8_t\<close> and the file masks no interrupt. This is the statement with a notification
  arriving between the read and the write: the callback runs on the globals, then the value
  computed from what was read is stored.
\<close>

definition clear_flag_interrupted :: "uint8_t \<Rightarrow> notification \<Rightarrow> mote \<Rightarrow> mote" where
  "clear_flag_interrupted k n m =
     (let loaded = flags (app_vars m);
          m1 = notify n m
      in m1\<lparr>app_vars := (app_vars m1)\<lparr>flags := loaded AND NOT k\<rparr>\<rparr>)"

text \<open>How often a callback is invoked by a sequence of notifications.\<close>

definition invocations :: "callback \<Rightarrow> notification list \<Rightarrow> nat" where
  "invocations c ns = length (filter (\<lambda>n. callback_of n = c) ns)"

subsection \<open>Runs\<close>

text \<open>
  A run of the machine inside \<open>while (1)\<close> is a sequence of steps: the radio receives a
  frame, which it then holds; a notification arrives and its callback runs; or the dispatch
  loop performs one of its three checks. The loop performs the checks in a fixed order; runs
  with the checks in any order contain those. The idle wait
  \<open>while (app_vars.flags==0x00) board_sleep();\<close> writes no global: in a run it is a
  stretch without checks.
\<close>

datatype step =
    Receive "uint8_t list"
  | Notification notification
  | Check_start_frame
  | Check_end_frame
  | Check_timer

fun mote_step :: "step \<Rightarrow> mote \<Rightarrow> mote option" where
  "mote_step (Receive frame) m = Some (m\<lparr>radio_frame := frame\<rparr>)"
| "mote_step (Notification n) m = Some (notify n m)"
| "mote_step Check_start_frame m = Some (handle_start_frame m)"
| "mote_step Check_end_frame m = Some (handle_end_frame m)"
| "mote_step Check_timer m = handle_timer m"

fun mote_run :: "step list \<Rightarrow> mote \<Rightarrow> mote option" where
  "mote_run [] m = Some m"
| "mote_run (a # as) m = (case mote_step a m of None \<Rightarrow> None | Some m1 \<Rightarrow> mote_run as m1)"

subsection \<open>Concrete machines\<close>

text \<open>
  \<open>boot\<close> is the machine when \<open>mote_main\<close> is entered: C globals start as zero.
  \<open>loop_state\<close> is a machine inside \<open>while (1)\<close> as start-up is written to leave it:
  the packet holds \<open>ID\<close> in every byte and \<open>packet_len\<close> is the size of the packet;
  the mode, the pending flags and the frame in the radio are given.
\<close>

definition boot :: "nat \<Rightarrow> mote" where
  "boot LENGTH_CRC =
     \<lparr>app_vars =
        \<lparr>flags = 0, state = 0, packet = replicate (LENGTH_PACKET LENGTH_CRC) 0,
         packet_len = 0, rxpk_rssi = 0, rxpk_lqi = 0, rxpk_crc = False\<rparr>,
      app_dbg =
        \<lparr>num_radioTimerOverflows = 0, num_radioTimerCompare = 0, num_startFrame = 0,
         num_endFrame = 0, num_timer = 0\<rparr>,
      calls = [], radio_frame = []\<rparr>"

definition loop_state :: "nat \<Rightarrow> app_state_t \<Rightarrow> uint8_t \<Rightarrow> uint8_t list \<Rightarrow> mote" where
  "loop_state LENGTH_CRC st fl frame =
     \<lparr>app_vars =
        \<lparr>flags = fl, state = st, packet = replicate (LENGTH_PACKET LENGTH_CRC) ID,
         packet_len = of_nat (LENGTH_PACKET LENGTH_CRC),
         rxpk_rssi = 0, rxpk_lqi = 0, rxpk_crc = False\<rparr>,
      app_dbg =
        \<lparr>num_radioTimerOverflows = 0, num_radioTimerCompare = 0, num_startFrame = 0,
         num_endFrame = 0, num_timer = 0\<rparr>,
      calls = [], radio_frame = frame\<rparr>"



section \<open>The loop that prepares the packet\<close>

text \<open>
  The counter of the loop is a \<open>uint8_t\<close> and stays below 256, so the loop ends only if
  \<open>packet_len\<close> is at most 255.
\<close>

lemma fill_packet_Some_bound:
  assumes "fill_packet i v = Some w"
  shows "uint (packet_len v) \<le> 255"
proof (rule fill_packet.raw_induct [where P = "\<lambda>i v w. uint (packet_len v) \<le> 255", OF _ assms])
  fix f :: "uint8_t \<Rightarrow> app_vars_t \<Rightarrow> app_vars_t option" and i v w
  assume IH: "\<And>i v w. f i v = Some w \<Longrightarrow> uint (packet_len v) \<le> 255"
    and eq: "(if uint i < uint (packet_len v)
              then f (i + 1) (v\<lparr>packet := (packet v)[unat i := ID]\<rparr>)
              else Some v) = Some w"
  show "uint (packet_len v) \<le> 255"
  proof (cases "uint i < uint (packet_len v)")
    case True
    with eq have "f (i + 1) (v\<lparr>packet := (packet v)[unat i := ID]\<rparr>) = Some w" by simp
    from IH [OF this] show ?thesis by simp
  next
    case False
    have "uint i \<le> 255" using uint_bounded [of i] by simp
    with False show ?thesis by simp
  qed
qed

lemma fill_packet_diverges: "255 < uint (packet_len v) \<Longrightarrow> fill_packet i v = None"
  using fill_packet_Some_bound [of i v] by (cases "fill_packet i v") auto

text \<open>With a packet of at most 255 bytes the counter reaches \<open>packet_len\<close> and the loop ends.\<close>

lemma fill_packet_ends:
  assumes "uint (packet_len v) \<le> 255"
  shows "fill_packet i v \<noteq> None"
  using assms
proof (induction "nat (uint (packet_len v) - uint i)" arbitrary: i v rule: less_induct)
  case less
  show ?case
  proof (cases "uint i < uint (packet_len v)")
    case True
    let ?v = "v\<lparr>packet := (packet v)[unat i := ID]\<rparr>"
    from True less.prems have "uint i < 255" by simp
    then have i1: "uint (i + 1) = uint i + 1"
      by (simp add: uint_word_ariths)
    with True have "nat (uint (packet_len ?v) - uint (i + 1)) < nat (uint (packet_len v) - uint i)"
      by simp
    from less.hyps [OF this] less.prems have "fill_packet (i + 1) ?v \<noteq> None" by simp
    with True show ?thesis by (subst fill_packet.simps) simp
  next
    case False
    then show ?thesis by (subst fill_packet.simps) simp
  qed
qed

lemma fill_packet_ends_iff: "fill_packet i v \<noteq> None \<longleftrightarrow> uint (packet_len v) \<le> 255"
  using fill_packet_ends [of v i] fill_packet_diverges [of v i] by fastforce

lemma sizeof_packet_large:
  assumes "length (packet v) = LENGTH_PACKET crc" and "LENGTH_PACKET crc < 65536"
  shows "255 < uint (sizeof_packet v)"
proof -
  have "unat (sizeof_packet v) = LENGTH_PACKET crc"
    using assms by (simp add: sizeof_packet_def unat_of_nat)
  moreover have "2043 \<le> LENGTH_PACKET crc" by (simp add: LENGTH_PACKET_def)
  ultimately show ?thesis by (simp add: uint_nat)
qed

lemma prepare_packet_diverges:
  assumes "length (packet (app_vars m)) = LENGTH_PACKET crc" and "LENGTH_PACKET crc < 65536"
  shows "prepare_packet m = None"
  using sizeof_packet_large [OF assms]
  by (simp add: prepare_packet_def set_packet_len_def fill_packet_diverges)

lemma app_vars_bsp [simp]: "app_vars (bsp c m) = app_vars m"
  by (simp add: bsp_def)

lemma start_transmit_diverges:
  assumes "length (packet (app_vars m)) = LENGTH_PACKET crc" and "LENGTH_PACKET crc < 65536"
  shows "start_transmit m = None"
proof -
  have "prepare_packet (bsp Radio_rfOff m) = None"
    using assms by (intro prepare_packet_diverges [where crc = crc]) simp_all
  then show ?thesis by (simp add: start_transmit_def)
qed

lemma handle_timer_diverges:
  assumes "state (app_vars m) = APP_STATE_RX" and "flags (app_vars m) AND APP_FLAG_TIMER \<noteq> 0"
    and "length (packet (app_vars m)) = LENGTH_PACKET crc" and "LENGTH_PACKET crc < 65536"
  shows "handle_timer m = None"
  using assms(1,2) start_transmit_diverges [OF assms(3,4)]
  by (simp add: handle_timer_def)

subsection \<open>Flag arithmetic\<close>

lemma and_not_self: "(x::uint8_t) AND k = 0 \<Longrightarrow> x AND NOT k = x"
  by (auto simp: bit_eq_iff bit_and_iff bit_not_iff)

lemma and_not_other: "(k::uint8_t) AND j = 0 \<Longrightarrow> (x AND NOT k) AND j = x AND j"
  by (auto simp: bit_eq_iff bit_and_iff bit_not_iff)

lemmas app_flag_defs = APP_FLAG_START_FRAME_def APP_FLAG_END_FRAME_def APP_FLAG_TIMER_def

lemmas app_state_defs = APP_STATE_TX_def APP_STATE_RX_def

lemma app_flags_disjoint:
  "APP_FLAG_START_FRAME AND APP_FLAG_END_FRAME = 0"
  "APP_FLAG_START_FRAME AND APP_FLAG_TIMER = 0"
  "APP_FLAG_END_FRAME AND APP_FLAG_START_FRAME = 0"
  "APP_FLAG_END_FRAME AND APP_FLAG_TIMER = 0"
  "APP_FLAG_TIMER AND APP_FLAG_START_FRAME = 0"
  "APP_FLAG_TIMER AND APP_FLAG_END_FRAME = 0"
  by (simp_all add: app_flag_defs)

subsection \<open>What the checks do to the globals\<close>

lemma app_vars_handle_start_frame:
  "app_vars (handle_start_frame m) =
     (app_vars m)\<lparr>flags := flags (app_vars m) AND NOT APP_FLAG_START_FRAME\<rparr>"
  by (simp add: handle_start_frame_def clear_flag_def and_not_self)

lemma flags_handle_end_frame:
  "flags (app_vars (handle_end_frame m)) = flags (app_vars m) AND NOT APP_FLAG_END_FRAME"
  by (simp add: handle_end_frame_def clear_flag_def set_state_def set_packet_len_def
      radio_getReceivedFrame_def Let_def and_not_self)

lemma state_handle_end_frame:
  "state (app_vars (handle_end_frame m)) =
     (if flags (app_vars m) AND APP_FLAG_END_FRAME \<noteq> 0 \<and> state (app_vars m) = APP_STATE_TX
      then APP_STATE_RX else state (app_vars m))"
  by (simp add: handle_end_frame_def clear_flag_def set_state_def set_packet_len_def
      radio_getReceivedFrame_def Let_def)

lemma length_fetched: "length (take (fetched_length f b) f @ drop (fetched_length f b) b) = length b"
  by (simp add: fetched_length_def)

lemma length_packet_handle_end_frame:
  "length (packet (app_vars (handle_end_frame m))) = length (packet (app_vars m))"
  by (simp add: handle_end_frame_def clear_flag_def set_state_def set_packet_len_def
      radio_getReceivedFrame_def Let_def length_fetched del: length_append)

lemma packet_len_handle_end_frame:
  "packet_len (app_vars (handle_end_frame m)) =
     (if flags (app_vars m) AND APP_FLAG_END_FRAME \<noteq> 0 \<and> state (app_vars m) = APP_STATE_RX
      then sizeof_packet (app_vars m) else packet_len (app_vars m))"
  by (simp add: handle_end_frame_def clear_flag_def set_state_def set_packet_len_def
      radio_getReceivedFrame_def Let_def app_state_defs)

lemma app_vars_notify:
  "state (app_vars (notify n m)) = state (app_vars m)"
  "packet (app_vars (notify n m)) = packet (app_vars m)"
  "packet_len (app_vars (notify n m)) = packet_len (app_vars m)"
  by (cases n; simp add: cb_radioTimerOverflows_def cb_radioTimerCompare_def cb_startFrame_def
      cb_endFrame_def cb_timer_def raise_flag_def bsp_def)+

lemma handle_timer_Some:
  assumes "handle_timer m = Some m'"
    and "length (packet (app_vars m)) = LENGTH_PACKET crc" and "LENGTH_PACKET crc < 65536"
  shows "m' = clear_flag APP_FLAG_TIMER m"
    and "flags (app_vars m) AND APP_FLAG_TIMER = 0 \<or> state (app_vars m) \<noteq> APP_STATE_RX"
proof -
  show *: "flags (app_vars m) AND APP_FLAG_TIMER = 0 \<or> state (app_vars m) \<noteq> APP_STATE_RX"
    using assms(1) handle_timer_diverges [OF _ _ assms(2,3)] by fastforce
  show "m' = clear_flag APP_FLAG_TIMER m"
  proof (cases "flags (app_vars m) AND APP_FLAG_TIMER = 0")
    case True
    with assms(1) show ?thesis by (simp add: handle_timer_def clear_flag_def and_not_self)
  next
    case False
    with * have "state (app_vars m) \<noteq> APP_STATE_RX" by simp
    with False assms(1) show ?thesis by (auto simp: handle_timer_def)
  qed
qed

text \<open>When the filling loop does end, it has written to the packet only.\<close>

lemma fill_packet_flags:
  assumes "fill_packet i v = Some w"
  shows "flags w = flags v"
proof (rule fill_packet.raw_induct [where P = "\<lambda>i v w. flags w = flags v", OF _ assms])
  fix f :: "uint8_t \<Rightarrow> app_vars_t \<Rightarrow> app_vars_t option" and i v w
  assume IH: "\<And>i v w. f i v = Some w \<Longrightarrow> flags w = flags v"
    and eq: "(if uint i < uint (packet_len v)
              then f (i + 1) (v\<lparr>packet := (packet v)[unat i := ID]\<rparr>)
              else Some v) = Some w"
  show "flags w = flags v"
  proof (cases "uint i < uint (packet_len v)")
    case True
    with eq have "f (i + 1) (v\<lparr>packet := (packet v)[unat i := ID]\<rparr>) = Some w" by simp
    from IH [OF this] show ?thesis by simp
  next
    case False
    with eq show ?thesis by simp
  qed
qed

lemma flags_handle_timer:
  assumes "handle_timer m = Some m'"
  shows "flags (app_vars m') = flags (app_vars m) AND NOT APP_FLAG_TIMER"
proof (cases "flags (app_vars m) AND APP_FLAG_TIMER \<noteq> 0 \<and> state (app_vars m) = APP_STATE_RX")
  case True
  with assms obtain m1 m2 where p: "prepare_packet (bsp Radio_rfOff m) = Some m1"
    and m2: "start_transmit m = Some m2" "m' = clear_flag APP_FLAG_TIMER m2"
    "flags (app_vars m2) = flags (app_vars m1)"
    by (auto simp: handle_timer_def start_transmit_def set_state_def split: option.splits)
  from p have "flags (app_vars m1) = flags (app_vars m)"
    by (auto simp: prepare_packet_def set_packet_len_def dest!: fill_packet_flags)
  with m2 show ?thesis by (simp add: clear_flag_def)
next
  case False
  show ?thesis
  proof (cases "flags (app_vars m) AND APP_FLAG_TIMER = 0")
    case True
    with assms show ?thesis by (simp add: handle_timer_def and_not_self)
  next
    case nz: False
    with False have "state (app_vars m) \<noteq> APP_STATE_RX" by simp
    with nz assms show ?thesis by (auto simp: handle_timer_def clear_flag_def)
  qed
qed

lemma mote_pass_diverges:
  assumes "state (app_vars m) = APP_STATE_RX"
    and "flags (app_vars m) AND APP_FLAG_TIMER \<noteq> 0"
    and "length (packet (app_vars m)) = LENGTH_PACKET crc"
    and "LENGTH_PACKET crc < 65536"
  shows "mote_pass m = None"
proof -
  let ?m2 = "handle_end_frame (handle_start_frame m)"
  have "state (app_vars ?m2) = APP_STATE_RX"
    using assms(1) by (simp add: state_handle_end_frame app_vars_handle_start_frame app_state_defs)
  moreover have "flags (app_vars ?m2) AND APP_FLAG_TIMER = flags (app_vars m) AND APP_FLAG_TIMER"
    by (simp add: flags_handle_end_frame app_vars_handle_start_frame and_not_other
        app_flags_disjoint)
  moreover have "length (packet (app_vars ?m2)) = LENGTH_PACKET crc"
    using assms(3) by (simp add: length_packet_handle_end_frame app_vars_handle_start_frame)
  ultimately show ?thesis
    using assms(2,4) handle_timer_diverges [of ?m2 crc] by (simp add: mote_pass_def)
qed

lemma mote_step_receiving:
  assumes "mote_step a m = Some m'"
    and "state (app_vars m) = APP_STATE_RX"
    and "length (packet (app_vars m)) = LENGTH_PACKET crc"
    and "LENGTH_PACKET crc < 65536"
  shows "state (app_vars m') = APP_STATE_RX \<and> length (packet (app_vars m')) = LENGTH_PACKET crc"
proof (cases a)
  case (Receive frame)
  with assms show ?thesis by auto
next
  case (Notification n)
  with assms show ?thesis by (auto simp: app_vars_notify)
next
  case Check_start_frame
  with assms show ?thesis by (auto simp: app_vars_handle_start_frame)
next
  case Check_end_frame
  with assms show ?thesis
    by (auto simp: state_handle_end_frame length_packet_handle_end_frame)
next
  case Check_timer
  with assms have "m' = clear_flag APP_FLAG_TIMER m"
    using handle_timer_Some(1) [of m m' crc] by simp
  with assms show ?thesis by (simp add: clear_flag_def)
qed

lemma mote_run_receiving:
  assumes "mote_run as m = Some m'"
    and "state (app_vars m) = APP_STATE_RX"
    and "length (packet (app_vars m)) = LENGTH_PACKET crc"
    and "LENGTH_PACKET crc < 65536"
  shows "state (app_vars m') = APP_STATE_RX"
  using assms
proof (induction as arbitrary: m)
  case Nil
  then show ?case by simp
next
  case (Cons a as)
  from Cons.prems(1) obtain m1 where s: "mote_step a m = Some m1" and r: "mote_run as m1 = Some m'"
    by (auto split: option.splits)
  from mote_step_receiving [OF s Cons.prems(2,3,4)] Cons.IH [OF r] Cons.prems(4)
  show ?case by simp
qed

section \<open>The mode\<close>

text \<open>
  C1. The mode is to alternate RECEIVING, TRANSMITTING, RECEIVING, ...: it is to become
  TRANSMITTING when TIMER\_FIRED is handled while RECEIVING, and RECEIVING when FRAME\_END is
  handled while TRANSMITTING; no other check changes it. In the code the step from RECEIVING
  to TRANSMITTING is never completed. The packet has \<open>2043+LENGTH_CRC\<close> bytes and the loop
  that fills it counts in a \<open>uint8_t\<close>, so the timer check does not return when the mode is
  RECEIVING and the flag is set; whatever notifications arrive and whatever checks are
  performed, a machine in mode RECEIVING is in mode RECEIVING after every run that returns.
\<close>

theorem mode_stays_receiving:
  assumes "state (app_vars m) = APP_STATE_RX"
    and "length (packet (app_vars m)) = LENGTH_PACKET crc"
    and "LENGTH_PACKET crc < 65536"
  shows "(flags (app_vars m) AND APP_FLAG_TIMER \<noteq> 0 \<longrightarrow> handle_timer m = None)
       \<and> (\<forall>as m'. mote_run as m = Some m' \<longrightarrow> state (app_vars m') = APP_STATE_RX)"
  using assms handle_timer_diverges [of m crc] mote_run_receiving [of _ m _ crc] by blast

theorem mode_stays_receiving_witness:
  "handle_timer (loop_state 4 APP_STATE_RX APP_FLAG_TIMER []) = None
   \<and> mote_run [Receive [1, 2, 3], Notification (End_frame 0), Check_start_frame, Check_end_frame]
        (loop_state 4 APP_STATE_RX APP_FLAG_TIMER []) \<noteq> None
   \<and> state (app_vars (the (mote_run
        [Receive [1, 2, 3], Notification (End_frame 0), Check_start_frame, Check_end_frame]
        (loop_state 4 APP_STATE_RX APP_FLAG_TIMER [])))) = APP_STATE_RX"
proof -
  let ?m = "loop_state 4 APP_STATE_RX APP_FLAG_TIMER []"
  let ?as = "[Receive [1, 2, 3], Notification (End_frame 0), Check_start_frame, Check_end_frame]"
  have h: "state (app_vars ?m) = APP_STATE_RX" "length (packet (app_vars ?m)) = LENGTH_PACKET 4"
    "LENGTH_PACKET 4 < 65536" "flags (app_vars ?m) AND APP_FLAG_TIMER \<noteq> 0"
    by (simp_all add: loop_state_def LENGTH_PACKET_def app_flag_defs)
  have r: "mote_run ?as ?m \<noteq> None" by simp
  then have "mote_run ?as ?m = Some (the (mote_run ?as ?m))" by simp
  with mode_stays_receiving [OF h(1,2,3)] h(4) r show ?thesis by blast
qed

section \<open>One dispatch pass that starts a transmission\<close>

text \<open>
  C2. Starting in mode RECEIVING with the TIMER\_FIRED flag set, one dispatch pass is to power
  the radio off, fill every byte of the packet with \<open>ID\<close>, load and transmit the packet and
  end in mode TRANSMITTING. In the code that pass does not end: \<open>packet_len\<close> is set to
  \<open>2043+LENGTH_CRC\<close>, the counter \<open>uint8_t i\<close> of the filling loop wraps from 255 to 0 and
  stays below \<open>packet_len\<close>, so the packet is never loaded and the mode is never set.
\<close>

theorem transmit_pass_never_ends:
  assumes "state (app_vars m) = APP_STATE_RX"
    and "flags (app_vars m) AND APP_FLAG_TIMER \<noteq> 0"
    and "length (packet (app_vars m)) = LENGTH_PACKET crc"
    and "LENGTH_PACKET crc < 65536"
  shows "mote_pass m = None"
  using assms by (rule mote_pass_diverges)

theorem transmit_pass_never_ends_witness:
  "state (app_vars (loop_state 4 APP_STATE_RX APP_FLAG_TIMER [])) = APP_STATE_RX
   \<and> flags (app_vars (loop_state 4 APP_STATE_RX APP_FLAG_TIMER [])) AND APP_FLAG_TIMER \<noteq> 0
   \<and> length (packet (app_vars (loop_state 4 APP_STATE_RX APP_FLAG_TIMER []))) = LENGTH_PACKET 4
   \<and> LENGTH_PACKET 4 < 65536
   \<and> mote_pass (loop_state 4 APP_STATE_RX APP_FLAG_TIMER []) = None"
  using transmit_pass_never_ends [of "loop_state 4 APP_STATE_RX APP_FLAG_TIMER []" 4]
  by (simp add: loop_state_def LENGTH_PACKET_def app_flag_defs)

section \<open>The drain loop\<close>

text \<open>
  C3. For every set of pending flags the drain loop is to handle each set flag once per pass,
  in the order FRAME\_START, FRAME\_END, TIMER\_FIRED, and to repeat passes until no flag is
  set, so that every raised flag is handled before the loop returns to the idle wait. In the
  code the drain loop does not return to the idle wait when TIMER\_FIRED is pending in mode
  RECEIVING: the first pass does not end (the filling loop of C2), and the flag is never cleared.
\<close>

theorem drain_never_ends:
  assumes "state (app_vars m) = APP_STATE_RX"
    and "flags (app_vars m) AND APP_FLAG_TIMER \<noteq> 0"
    and "length (packet (app_vars m)) = LENGTH_PACKET crc"
    and "LENGTH_PACKET crc < 65536"
  shows "drain m = None"
proof -
  from assms(2) have "flags (app_vars m) \<noteq> 0" by auto
  then show ?thesis
    using mote_pass_diverges [OF assms] by (subst drain.simps) simp
qed

theorem drain_never_ends_witness:
  "state (app_vars (loop_state 4 APP_STATE_RX 7 [])) = APP_STATE_RX
   \<and> flags (app_vars (loop_state 4 APP_STATE_RX 7 [])) AND APP_FLAG_TIMER \<noteq> 0
   \<and> length (packet (app_vars (loop_state 4 APP_STATE_RX 7 []))) = LENGTH_PACKET 4
   \<and> LENGTH_PACKET 4 < 65536
   \<and> drain (loop_state 4 APP_STATE_RX 7 []) = None"
  using drain_never_ends [of "loop_state 4 APP_STATE_RX 7 []" 4]
  by (simp add: loop_state_def LENGTH_PACKET_def app_flag_defs)

section \<open>Start-up\<close>

text \<open>
  C6. Start-up is to establish, before the first dispatch pass: application state zeroed, the
  packet prepared, the timer scheduled, the radio on, tuned and armed to receive, mode
  RECEIVING, and the TIMER\_FIRED flag set. In the code start-up does not get past preparing
  the packet: the same filling loop, with the same \<open>uint8_t\<close> counter, never ends, so the
  timer is not scheduled, the radio is not switched on, and the dispatch loop is not entered.
\<close>

theorem startup_never_ends:
  assumes "length (packet (app_vars m)) = LENGTH_PACKET crc" and "LENGTH_PACKET crc < 65536"
  shows "mote_main_init m = None"
proof -
  let ?m1 = "fold bsp
                [Board_init,
                 Radio_setOverflowCb Cb_radioTimerOverflows,
                 Radio_setCompareCb Cb_radioTimerCompare,
                 Radio_setStartFrameCb Cb_startFrame,
                 Radio_setEndFrameCb Cb_endFrame] (memset_app_vars m)"
  have "length (packet (app_vars ?m1)) = LENGTH_PACKET crc"
    using assms(1) by (simp add: memset_app_vars_def)
  from prepare_packet_diverges [OF this assms(2)] show ?thesis
    by (simp add: mote_main_init_def)
qed

theorem startup_never_ends_witness:
  "length (packet (app_vars (boot 4))) = LENGTH_PACKET 4 \<and> LENGTH_PACKET 4 < 65536
   \<and> mote_main_init (boot 4) = None"
  using startup_never_ends [of "boot 4" 4] by (simp add: boot_def LENGTH_PACKET_def)

section \<open>The timer while transmitting\<close>

text \<open>
  C4. Handling TIMER\_FIRED while the mode is TRANSMITTING changes neither the mode, nor the
  packet, nor \<open>packet_len\<close>, and issues no driver call: the machine afterwards is the machine
  before, with the TIMER\_FIRED flag cleared.
\<close>

theorem timer_while_transmitting_is_dropped:
  assumes "state (app_vars m) = APP_STATE_TX"
  shows "handle_timer m =
           Some (m\<lparr>app_vars := (app_vars m)\<lparr>flags := flags (app_vars m) AND NOT APP_FLAG_TIMER\<rparr>\<rparr>)"
  using assms by (simp add: handle_timer_def clear_flag_def and_not_self app_state_defs)

theorem timer_while_transmitting_is_dropped_witness:
  "state (app_vars (loop_state 4 APP_STATE_TX APP_FLAG_TIMER [])) = APP_STATE_TX
   \<and> handle_timer (loop_state 4 APP_STATE_TX APP_FLAG_TIMER []) =
       Some (loop_state 4 APP_STATE_TX 0 [])"
  using timer_while_transmitting_is_dropped [of "loop_state 4 APP_STATE_TX APP_FLAG_TIMER []"]
  by (simp add: loop_state_def app_flag_defs)

section \<open>The end of a received frame\<close>

text \<open>
  C5. Handling FRAME\_END while the mode is RECEIVING sets \<open>packet_len\<close> to the size of the
  packet before the frame is fetched (the logged call shows the value at the call), fetches
  the frame into the packet, the fetched length being at most the size of the packet,
  switches off the LED that the start of a received frame switches on, and leaves the mode
  RECEIVING; of the flags only FRAME\_END is cleared.
\<close>

theorem end_frame_while_receiving:
  assumes "state (app_vars m) = APP_STATE_RX"
    and "flags (app_vars m) AND APP_FLAG_END_FRAME \<noteq> 0"
    and "length (packet (app_vars m)) = LENGTH_PACKET crc"
    and "LENGTH_PACKET crc < 65536"
  shows "calls (handle_end_frame m) =
           calls m @ [Radio_getReceivedFrame (of_nat (LENGTH_PACKET crc)), Leds_error_off]
       \<and> unat (packet_len (app_vars (handle_end_frame m))) = LENGTH_PACKET crc
       \<and> packet (app_vars (handle_end_frame m)) =
           take (fetched_length (radio_frame m) (packet (app_vars m))) (radio_frame m)
           @ drop (fetched_length (radio_frame m) (packet (app_vars m))) (packet (app_vars m))
       \<and> fetched_length (radio_frame m) (packet (app_vars m)) \<le> LENGTH_PACKET crc
       \<and> length (packet (app_vars (handle_end_frame m))) = LENGTH_PACKET crc
       \<and> state (app_vars (handle_end_frame m)) = APP_STATE_RX
       \<and> flags (app_vars (handle_end_frame m)) = flags (app_vars m) AND NOT APP_FLAG_END_FRAME
       \<and> (flags (app_vars m) AND APP_FLAG_START_FRAME \<noteq> 0 \<longrightarrow>
            calls (handle_start_frame m) = calls m @ [Leds_error_on])"
proof -
  have "calls (handle_end_frame m) =
           calls m @ [Radio_getReceivedFrame (of_nat (LENGTH_PACKET crc)), Leds_error_off]"
    using assms(1,2,3)
    by (simp add: handle_end_frame_def clear_flag_def set_packet_len_def
        radio_getReceivedFrame_def Let_def bsp_def sizeof_packet_def)
  moreover have "unat (packet_len (app_vars (handle_end_frame m))) = LENGTH_PACKET crc"
    using assms by (simp add: packet_len_handle_end_frame sizeof_packet_def unat_of_nat)
  moreover have "packet (app_vars (handle_end_frame m)) =
           take (fetched_length (radio_frame m) (packet (app_vars m))) (radio_frame m)
           @ drop (fetched_length (radio_frame m) (packet (app_vars m))) (packet (app_vars m))"
    using assms(1,2)
    by (simp add: handle_end_frame_def clear_flag_def set_packet_len_def
        radio_getReceivedFrame_def Let_def bsp_def)
  moreover have "fetched_length (radio_frame m) (packet (app_vars m)) \<le> LENGTH_PACKET crc"
    using assms(3) by (simp add: fetched_length_def)
  moreover have "length (packet (app_vars (handle_end_frame m))) = LENGTH_PACKET crc"
    using assms(3) by (simp add: length_packet_handle_end_frame)
  moreover have "state (app_vars (handle_end_frame m)) = APP_STATE_RX"
    using assms(1) by (simp add: state_handle_end_frame app_state_defs)
  moreover have "flags (app_vars m) AND APP_FLAG_START_FRAME \<noteq> 0 \<longrightarrow>
            calls (handle_start_frame m) = calls m @ [Leds_error_on]"
    using assms(1) by (simp add: handle_start_frame_def clear_flag_def bsp_def)
  ultimately show ?thesis by (simp add: flags_handle_end_frame)
qed

theorem end_frame_while_receiving_witness:
  "calls (handle_end_frame (loop_state 4 APP_STATE_RX 3 [1, 2, 3])) =
     [Radio_getReceivedFrame 2047, Leds_error_off]
   \<and> unat (packet_len (app_vars (handle_end_frame (loop_state 4 APP_STATE_RX 3 [1, 2, 3])))) = 2047
   \<and> fetched_length [1, 2, 3] (replicate 2047 ID) = 3
   \<and> state (app_vars (handle_end_frame (loop_state 4 APP_STATE_RX 3 [1, 2, 3]))) = APP_STATE_RX
   \<and> calls (handle_start_frame (loop_state 4 APP_STATE_RX 3 [1, 2, 3])) = [Leds_error_on]"
proof -
  let ?m = "loop_state 4 APP_STATE_RX 3 [1, 2, 3]"
  have h: "state (app_vars ?m) = APP_STATE_RX" "flags (app_vars ?m) AND APP_FLAG_END_FRAME \<noteq> 0"
    "length (packet (app_vars ?m)) = LENGTH_PACKET 4" "LENGTH_PACKET 4 < 65536"
    by (simp_all add: loop_state_def LENGTH_PACKET_def app_flag_defs)
  have c: "calls ?m = []" "LENGTH_PACKET 4 = 2047"
    "flags (app_vars ?m) AND APP_FLAG_START_FRAME \<noteq> 0"
    by (simp_all add: loop_state_def LENGTH_PACKET_def app_flag_defs)
  have f: "fetched_length [1, 2, 3] (replicate 2047 ID) = 3" by (simp add: fetched_length_def)
  from end_frame_while_receiving [OF h] c f show ?thesis by simp
qed

section \<open>Checks of flags that are not set\<close>

text \<open>
  C8. The check of a flag whose bit is clear leaves the whole machine as it is, and the check
  of one flag leaves the bits of the two other flags as they are.
\<close>

theorem cleared_flag_noop_and_per_kind_clearing:
  "(flags (app_vars m) AND APP_FLAG_START_FRAME = 0 \<longrightarrow> handle_start_frame m = m)
 \<and> (flags (app_vars m) AND APP_FLAG_END_FRAME = 0 \<longrightarrow> handle_end_frame m = m)
 \<and> (flags (app_vars m) AND APP_FLAG_TIMER = 0 \<longrightarrow> handle_timer m = Some m)
 \<and> flags (app_vars (handle_start_frame m)) AND APP_FLAG_END_FRAME
      = flags (app_vars m) AND APP_FLAG_END_FRAME
 \<and> flags (app_vars (handle_start_frame m)) AND APP_FLAG_TIMER
      = flags (app_vars m) AND APP_FLAG_TIMER
 \<and> flags (app_vars (handle_end_frame m)) AND APP_FLAG_START_FRAME
      = flags (app_vars m) AND APP_FLAG_START_FRAME
 \<and> flags (app_vars (handle_end_frame m)) AND APP_FLAG_TIMER
      = flags (app_vars m) AND APP_FLAG_TIMER
 \<and> (\<forall>m'. handle_timer m = Some m' \<longrightarrow>
        flags (app_vars m') AND APP_FLAG_START_FRAME = flags (app_vars m) AND APP_FLAG_START_FRAME
      \<and> flags (app_vars m') AND APP_FLAG_END_FRAME = flags (app_vars m) AND APP_FLAG_END_FRAME)"
proof -
  have "flags (app_vars m) AND APP_FLAG_START_FRAME = 0 \<longrightarrow> handle_start_frame m = m"
    by (simp add: handle_start_frame_def)
  moreover have "flags (app_vars m) AND APP_FLAG_END_FRAME = 0 \<longrightarrow> handle_end_frame m = m"
    by (simp add: handle_end_frame_def)
  moreover have "flags (app_vars m) AND APP_FLAG_TIMER = 0 \<longrightarrow> handle_timer m = Some m"
    by (simp add: handle_timer_def)
  moreover have "flags (app_vars (handle_start_frame m)) AND APP_FLAG_END_FRAME
      = flags (app_vars m) AND APP_FLAG_END_FRAME"
    "flags (app_vars (handle_start_frame m)) AND APP_FLAG_TIMER
      = flags (app_vars m) AND APP_FLAG_TIMER"
    by (simp_all add: app_vars_handle_start_frame and_not_other app_flags_disjoint)
  moreover have "flags (app_vars (handle_end_frame m)) AND APP_FLAG_START_FRAME
      = flags (app_vars m) AND APP_FLAG_START_FRAME"
    "flags (app_vars (handle_end_frame m)) AND APP_FLAG_TIMER
      = flags (app_vars m) AND APP_FLAG_TIMER"
    by (simp_all add: flags_handle_end_frame and_not_other app_flags_disjoint)
  moreover have "flags (app_vars m') AND APP_FLAG_START_FRAME
        = flags (app_vars m) AND APP_FLAG_START_FRAME
      \<and> flags (app_vars m') AND APP_FLAG_END_FRAME = flags (app_vars m) AND APP_FLAG_END_FRAME"
    if "handle_timer m = Some m'" for m'
    by (simp add: flags_handle_timer [OF that] and_not_other app_flags_disjoint)
  ultimately show ?thesis by blast
qed

theorem cleared_flag_noop_and_per_kind_clearing_witness:
  "handle_start_frame (loop_state 4 APP_STATE_TX 6 []) = loop_state 4 APP_STATE_TX 6 []
 \<and> handle_end_frame (loop_state 4 APP_STATE_TX 5 []) = loop_state 4 APP_STATE_TX 5 []
 \<and> handle_timer (loop_state 4 APP_STATE_TX 3 []) = Some (loop_state 4 APP_STATE_TX 3 [])
 \<and> handle_timer (loop_state 4 APP_STATE_TX 7 []) = Some (loop_state 4 APP_STATE_TX 3 [])
 \<and> flags (app_vars (loop_state 4 APP_STATE_TX 3 [])) AND APP_FLAG_START_FRAME
      = flags (app_vars (loop_state 4 APP_STATE_TX 7 [])) AND APP_FLAG_START_FRAME
 \<and> flags (app_vars (loop_state 4 APP_STATE_TX 3 [])) AND APP_FLAG_END_FRAME
      = flags (app_vars (loop_state 4 APP_STATE_TX 7 [])) AND APP_FLAG_END_FRAME"
proof -
  have a: "flags (app_vars (loop_state 4 APP_STATE_TX 6 [])) AND APP_FLAG_START_FRAME = 0"
    "flags (app_vars (loop_state 4 APP_STATE_TX 5 [])) AND APP_FLAG_END_FRAME = 0"
    "flags (app_vars (loop_state 4 APP_STATE_TX 3 [])) AND APP_FLAG_TIMER = 0"
    by (simp_all add: loop_state_def app_flag_defs)
  have b: "handle_timer (loop_state 4 APP_STATE_TX 7 []) = Some (loop_state 4 APP_STATE_TX 3 [])"
    by (simp add: handle_timer_def loop_state_def clear_flag_def app_flag_defs app_state_defs)
  from a b
    cleared_flag_noop_and_per_kind_clearing [of "loop_state 4 APP_STATE_TX 6 []"]
    cleared_flag_noop_and_per_kind_clearing [of "loop_state 4 APP_STATE_TX 5 []"]
    cleared_flag_noop_and_per_kind_clearing [of "loop_state 4 APP_STATE_TX 3 []"]
    cleared_flag_noop_and_per_kind_clearing [of "loop_state 4 APP_STATE_TX 7 []"]
  show ?thesis by blast
qed

section \<open>The debug counters\<close>

lemma counter_notify_own:
  "counter (callback_of n) (app_dbg (notify n m)) = counter (callback_of n) (app_dbg m) + 1"
  by (cases n) (simp_all add: cb_radioTimerOverflows_def cb_radioTimerCompare_def
      cb_startFrame_def cb_endFrame_def cb_timer_def raise_flag_def bsp_def)

lemma counter_notify_other:
  "c \<noteq> callback_of n \<Longrightarrow> counter c (app_dbg (notify n m)) = counter c (app_dbg m)"
  by (cases n; cases c) (simp_all add: cb_radioTimerOverflows_def cb_radioTimerCompare_def
      cb_startFrame_def cb_endFrame_def cb_timer_def raise_flag_def bsp_def)

lemma counter_fold_notify:
  "counter c (app_dbg (fold notify ns m)) = counter c (app_dbg m) + of_nat (invocations c ns)"
proof (induction ns arbitrary: m)
  case Nil
  show ?case by (simp add: invocations_def)
next
  case (Cons n ns)
  show ?case
  proof (cases "callback_of n = c")
    case True
    then show ?thesis
      using Cons.IH [of "notify n m"] counter_notify_own [of n m]
      by (simp add: invocations_def)
  next
    case False
    then show ?thesis
      using Cons.IH [of "notify n m"] counter_notify_other [of c n m]
      by (simp add: invocations_def)
  qed
qed

lemma unat_add_of_nat: "unat ((x::uint8_t) + of_nat k) = (unat x + k) mod 256"
  by (simp add: unat_word_ariths unat_of_nat mod_add_right_eq)

lemma app_dbg_handle_start_frame: "app_dbg (handle_start_frame m) = app_dbg m"
  by (simp add: handle_start_frame_def clear_flag_def bsp_def)

lemma app_dbg_handle_end_frame: "app_dbg (handle_end_frame m) = app_dbg m"
  by (simp add: handle_end_frame_def clear_flag_def bsp_def set_state_def set_packet_len_def
      radio_getReceivedFrame_def Let_def)

lemma app_dbg_handle_timer: "handle_timer m = Some m' \<Longrightarrow> app_dbg m' = app_dbg m"
  by (auto simp: handle_timer_def start_transmit_def prepare_packet_def clear_flag_def
      set_state_def bsp_def split: if_splits option.splits)

text \<open>
  C9, as claimed: every debug counter is a monotonically increasing count of its notification
  kind and never decreases. The counters are \<open>uint8_t\<close>: after 255 firings of the timer
  since program start \<open>num_timer\<close> is 255, and the next firing sets it to 0.
\<close>

theorem debug_counter_wraps:
  "counter Cb_timer
     (app_dbg (notify Timer_fired (fold notify (replicate 255 Timer_fired) (boot 4))))
   < counter Cb_timer (app_dbg (fold notify (replicate 255 Timer_fired) (boot 4)))"
proof -
  let ?m = "fold notify (replicate 255 Timer_fired) (boot 4)"
  have b: "counter Cb_timer (app_dbg ?m) = 255"
    by (simp only: counter_fold_notify) (simp add: invocations_def boot_def)
  have "counter Cb_timer (app_dbg (notify Timer_fired ?m)) = counter Cb_timer (app_dbg ?m) + 1"
    using counter_notify_own [of Timer_fired ?m] by simp
  with b have "counter Cb_timer (app_dbg (notify Timer_fired ?m)) = 0" by simp
  with b show ?thesis by simp
qed

text \<open>
  C9, amended: every debug counter counts the notifications of its kind modulo 256. An
  invocation of a callback adds one, modulo 256, to the callback's own counter and leaves
  the four other counters as they are; the three checks of the dispatch loop do not write
  the counters; after any sequence of notifications a counter holds its old value plus the
  number of invocations of its callback, modulo 256, and it has not decreased if that sum
  is below 256.
\<close>

theorem debug_counters_count_modulo_256:
  "unat (counter (callback_of n) (app_dbg (notify n m)))
     = (unat (counter (callback_of n) (app_dbg m)) + 1) mod 256
 \<and> (\<forall>c. c \<noteq> callback_of n \<longrightarrow> counter c (app_dbg (notify n m)) = counter c (app_dbg m))
 \<and> app_dbg (handle_start_frame m) = app_dbg m
 \<and> app_dbg (handle_end_frame m) = app_dbg m
 \<and> (\<forall>m'. handle_timer m = Some m' \<longrightarrow> app_dbg m' = app_dbg m)
 \<and> unat (counter c (app_dbg (fold notify ns m)))
     = (unat (counter c (app_dbg m)) + invocations c ns) mod 256
 \<and> (unat (counter c (app_dbg m)) + invocations c ns < 256 \<longrightarrow>
      counter c (app_dbg m) \<le> counter c (app_dbg (fold notify ns m)))"
proof -
  have "unat (counter (callback_of n) (app_dbg (notify n m)))
     = (unat (counter (callback_of n) (app_dbg m)) + 1) mod 256"
    using unat_add_of_nat [of "counter (callback_of n) (app_dbg m)" 1]
    by (simp add: counter_notify_own)
  moreover have f: "unat (counter c (app_dbg (fold notify ns m)))
     = (unat (counter c (app_dbg m)) + invocations c ns) mod 256"
    by (simp add: counter_fold_notify unat_add_of_nat)
  moreover have "counter c (app_dbg m) \<le> counter c (app_dbg (fold notify ns m))"
    if "unat (counter c (app_dbg m)) + invocations c ns < 256"
    using that f by (simp add: word_le_nat_alt)
  ultimately show ?thesis
    using counter_notify_other [of _ n m] app_dbg_handle_timer [of m]
    by (simp add: app_dbg_handle_start_frame app_dbg_handle_end_frame)
qed

theorem debug_counters_count_modulo_256_witness:
  "unat (counter Cb_timer (app_dbg (notify Timer_fired (boot 4)))) = 1
 \<and> counter Cb_endFrame (app_dbg (notify Timer_fired (boot 4))) = 0
 \<and> handle_timer (boot 4) = Some (boot 4)
 \<and> app_dbg (the (handle_timer (boot 4))) = app_dbg (boot 4)
 \<and> unat (counter Cb_timer (app_dbg
      (fold notify [Timer_fired, Start_frame 0, Timer_fired] (boot 4)))) = 2
 \<and> counter Cb_timer (app_dbg (boot 4))
      \<le> counter Cb_timer (app_dbg (fold notify [Timer_fired, Start_frame 0, Timer_fired] (boot 4)))"
proof -
  have a: "unat (counter Cb_timer (app_dbg (boot 4))) = 0"
    "counter Cb_endFrame (app_dbg (boot 4)) = 0"
    "invocations Cb_timer [Timer_fired, Start_frame 0, Timer_fired] = 2"
    "handle_timer (boot 4) = Some (boot 4)"
    by (simp_all add: boot_def invocations_def handle_timer_def)
  note t = debug_counters_count_modulo_256
         [of Timer_fired "boot 4" Cb_timer "[Timer_fired, Start_frame 0, Timer_fired]"]
  have 1: "unat (counter Cb_timer (app_dbg (notify Timer_fired (boot 4)))) = 1"
    using t [THEN conjunct1] a(1) by simp
  have 2: "counter Cb_endFrame (app_dbg (notify Timer_fired (boot 4))) = 0"
    using t [THEN conjunct2, THEN conjunct1, rule_format, of Cb_endFrame] a(2) by simp
  have 3: "unat (counter Cb_timer (app_dbg
      (fold notify [Timer_fired, Start_frame 0, Timer_fired] (boot 4)))) = 2"
    using t [THEN conjunct2, THEN conjunct2, THEN conjunct2, THEN conjunct2, THEN conjunct2,
             THEN conjunct1] a(1,3) by simp
  have 4: "counter Cb_timer (app_dbg (boot 4))
      \<le> counter Cb_timer (app_dbg (fold notify [Timer_fired, Start_frame 0, Timer_fired] (boot 4)))"
    using t [THEN conjunct2, THEN conjunct2, THEN conjunct2, THEN conjunct2, THEN conjunct2,
             THEN conjunct2] a(1,3) by simp
  have 5: "app_dbg (the (handle_timer (boot 4))) = app_dbg (boot 4)"
    using t [THEN conjunct2, THEN conjunct2, THEN conjunct2, THEN conjunct2, THEN conjunct1,
             rule_format, OF a(4)] a(4) by simp
  from 1 2 3 4 5 a(4) show ?thesis by simp
qed

section \<open>The declared length of the packet\<close>





















section \<open>A notification during the clearing of a flag\<close>

lemma flags_notify: "flags (app_vars (notify n m)) = flags (app_vars m) OR raised n"
  by (cases n) (simp_all add: cb_radioTimerOverflows_def cb_radioTimerCompare_def
      cb_startFrame_def cb_endFrame_def cb_timer_def raise_flag_def bsp_def)

lemma or_and_self: "((x::uint8_t) AND NOT k OR r) AND r = r"
  by (auto simp: bit_eq_iff bit_and_iff bit_or_iff bit_not_iff)

lemma or_and_not_other: "(r::uint8_t) AND k = 0 \<Longrightarrow> ((x OR r) AND NOT k) AND r = r"
  by (auto simp: bit_eq_iff bit_and_iff bit_or_iff bit_not_iff)

lemma and_not_and_zero: "(r::uint8_t) AND x = 0 \<Longrightarrow> (x AND NOT k) AND r = 0"
  by (auto simp: bit_eq_iff bit_and_iff bit_not_iff)

text \<open>
  C7, as claimed: a flag raised by a callback between the read and the write of the clearing
  of another flag is not lost. With FRAME\_END pending and being cleared, a start of frame is
  notified between the read and the write: the callback sets the bit and counts the
  notification, the write then stores the value read before, and the bit is gone.
\<close>

theorem raise_between_read_and_write_is_lost:
  "flags (app_vars (notify (Start_frame 0) (loop_state 4 APP_STATE_RX 2 []))) AND APP_FLAG_START_FRAME
     = APP_FLAG_START_FRAME
 \<and> flags (app_vars (clear_flag_interrupted APP_FLAG_END_FRAME (Start_frame 0)
             (loop_state 4 APP_STATE_RX 2 []))) AND APP_FLAG_START_FRAME = 0
 \<and> num_startFrame (app_dbg (clear_flag_interrupted APP_FLAG_END_FRAME (Start_frame 0)
             (loop_state 4 APP_STATE_RX 2 []))) = 1"
  by (simp add: clear_flag_interrupted_def Let_def loop_state_def cb_startFrame_def
      raise_flag_def app_flag_defs)

text \<open>
  C7, amended: the clearing of a flag is a read followed by a write and is not atomic. A
  notification between the two leaves \<open>flags\<close> as if it had not happened (the write stores
  the value read, without the cleared bit), while its callback has run and counted it; so
  its flag is lost if it was not already set. A notification before the read, of a flag
  other than the one cleared, and a notification after the write keep their flag.
\<close>

theorem clear_is_read_then_write:
  "flags (app_vars (clear_flag_interrupted k n m)) = flags (app_vars m) AND NOT k
 \<and> app_dbg (clear_flag_interrupted k n m) = app_dbg (notify n m)
 \<and> (raised n AND flags (app_vars m) = 0 \<longrightarrow>
       flags (app_vars (clear_flag_interrupted k n m)) AND raised n = 0)
 \<and> (raised n AND k = 0 \<longrightarrow>
       flags (app_vars (clear_flag k (notify n m))) AND raised n = raised n)
 \<and> flags (app_vars (notify n (clear_flag k m))) AND raised n = raised n"
proof -
  have "flags (app_vars (clear_flag_interrupted k n m)) = flags (app_vars m) AND NOT k"
    "app_dbg (clear_flag_interrupted k n m) = app_dbg (notify n m)"
    by (simp_all add: clear_flag_interrupted_def Let_def)
  moreover have "flags (app_vars (clear_flag k (notify n m))) AND raised n = raised n"
    if "raised n AND k = 0"
    using that by (simp add: clear_flag_def flags_notify or_and_not_other)
  moreover have "flags (app_vars (notify n (clear_flag k m))) AND raised n = raised n"
    by (simp add: flags_notify clear_flag_def or_and_self)
  ultimately show ?thesis by (simp add: and_not_and_zero)
qed

theorem clear_is_read_then_write_witness:
  "raised (Start_frame 0) AND flags (app_vars (loop_state 4 APP_STATE_RX 2 [])) = 0
 \<and> raised (Start_frame 0) AND APP_FLAG_END_FRAME = 0
 \<and> flags (app_vars (clear_flag_interrupted APP_FLAG_END_FRAME (Start_frame 0)
             (loop_state 4 APP_STATE_RX 2 []))) AND raised (Start_frame 0) = 0
 \<and> flags (app_vars (clear_flag APP_FLAG_END_FRAME (notify (Start_frame 0)
             (loop_state 4 APP_STATE_RX 2 [])))) AND raised (Start_frame 0) = raised (Start_frame 0)
 \<and> raised (Start_frame 0) \<noteq> 0"
proof -
  have a: "raised (Start_frame 0) AND flags (app_vars (loop_state 4 APP_STATE_RX 2 [])) = 0"
    "raised (Start_frame 0) AND APP_FLAG_END_FRAME = 0" "raised (Start_frame 0) \<noteq> 0"
    by (simp_all add: loop_state_def app_flag_defs)
  note t = clear_is_read_then_write
             [of APP_FLAG_END_FRAME "Start_frame 0" "loop_state 4 APP_STATE_RX 2 []"]
  from t [THEN conjunct2, THEN conjunct2, THEN conjunct1, rule_format, OF a(1)]
    t [THEN conjunct2, THEN conjunct2, THEN conjunct2, THEN conjunct1, rule_format, OF a(2)] a
  show ?thesis by blast
qed

end
